theory Spec2Isabelle
  imports Complex_Main
begin

section \<open>Covariance reducers of the tskit covariance tests\<close>

text \<open>
  The development follows \<^verbatim>\<open>python/tests/test_covariance.py\<close>. Numbers that the
  Python code holds in numpy float arrays are modelled by \<^typ>\<open>real\<close>: every statement
  below is about the exact value of the expressions the code evaluates, not about
  their rounding. Exceptions are values of the type \<open>error\<close>; a function that can raise
  returns \<open>error + 'a\<close>, with \<open>Inl\<close> for the exception.
\<close>

datatype error = ValueError string | ZeroDivisionError | IndexError

subsection \<open>Trees\<close>

text \<open>
  The tree class belongs to the library. A tree is represented by what the accessors
  used in the tests return for it: \<^verbatim>\<open>tree.roots\<close>, the nodes that \<^verbatim>\<open>tree.nodes()\<close>
  iterates over, \<^verbatim>\<open>tree.num_children(u)\<close>, \<^verbatim>\<open>tree.mrca(u, v)\<close>, \<^verbatim>\<open>tree.time(u)\<close>,
  \<^verbatim>\<open>tree.root\<close>, \<^verbatim>\<open>tree.span\<close> and \<^verbatim>\<open>tree.tree_sequence.samples()\<close>. Node
  identifiers are integers (the library uses \<open>-1\<close> for the null node).
\<close>

record tree =
  tree_roots :: "int list"
  tree_nodes :: "int list"
  tree_num_children :: "int \<Rightarrow> nat"
  tree_mrca :: "int \<Rightarrow> int \<Rightarrow> int"
  tree_time :: "int \<Rightarrow> real"
  tree_root :: int
  tree_span :: real
  tree_samples :: "int list"

text \<open>
  The loop \<^verbatim>\<open>for u in tree.nodes(): if tree.num_children(u) == 1: raise ...\<close> of
  \<^verbatim>\<open>check_cov_tree_inputs\<close>.
\<close>

fun check_unary :: "(int \<Rightarrow> nat) \<Rightarrow> int list \<Rightarrow> error + unit" where
  "check_unary nc [] = Inr ()"
| "check_unary nc (u # us) =
     (if nc u = 1 then Inl (ValueError ''Unary nodes are not supported'')
      else check_unary nc us)"

definition check_cov_tree_inputs :: "tree \<Rightarrow> error + unit" where
  "check_cov_tree_inputs t =
     (if \<not> length (tree_roots t) = 1 then Inl (ValueError ''Trees must have one root'')
      else check_unary (tree_num_children t) (tree_nodes t))"

subsection \<open>Two-dimensional arrays\<close>

text \<open>
  A numpy array of two dimensions carries its shape, so that an array with no rows
  still has a number of columns. The rows are lists of entries.
\<close>

record ndarray =
  shape0 :: nat
  shape1 :: nat
  rows :: "real list list"

definition wf_ndarray :: "ndarray \<Rightarrow> bool" where
  "wf_ndarray a \<longleftrightarrow>
     length (rows a) = shape0 a \<and> list_all (\<lambda>r. length r = shape1 a) (rows a)"

definition zeros :: "nat \<Rightarrow> nat \<Rightarrow> ndarray" where
  "zeros n m = \<lparr>shape0 = n, shape1 = m, rows = replicate n (replicate m 0)\<rparr>"

definition getitem :: "ndarray \<Rightarrow> nat \<Rightarrow> nat \<Rightarrow> real" where
  "getitem a i j = rows a ! i ! j"

definition setitem :: "ndarray \<Rightarrow> nat \<Rightarrow> nat \<Rightarrow> real \<Rightarrow> ndarray" where
  "setitem a i j v = a\<lparr>rows := (rows a)[i := (rows a ! i)[j := v]]\<rparr>"

definition symmetric :: "ndarray \<Rightarrow> bool" where
  "symmetric a \<longleftrightarrow>
     shape0 a = shape1 a \<and>
     (\<forall>i < shape0 a. \<forall>j < shape0 a. getitem a i j = getitem a j i)"

subsection \<open>The tree-level covariance\<close>

text \<open>
  \<^verbatim>\<open>itertools.combinations_with_replacement(range(n), 2)\<close>: the pairs \<open>(i, j)\<close> with
  \<open>i \<le> j < n\<close>, in lexicographic order.
\<close>

definition combinations_with_replacement :: "nat \<Rightarrow> (nat \<times> nat) list" where
  "combinations_with_replacement n =
     concat (map (\<lambda>i. map (\<lambda>j. (i, j)) [i..<n]) [0..<n])"

text \<open>One iteration of the loop of \<^verbatim>\<open>naive_tree_covariance\<close>.\<close>

definition tree_cov_step :: "tree \<Rightarrow> nat \<times> nat \<Rightarrow> ndarray \<Rightarrow> ndarray" where
  "tree_cov_step t p cov =
     (let n1 = fst p; n2 = snd p;
          mrca = tree_mrca t (tree_samples t ! n1) (tree_samples t ! n2);
          cov1 = setitem cov n1 n2 (tree_time t (tree_root t) - tree_time t mrca)
      in setitem cov1 n2 n1 (getitem cov1 n1 n2))"

definition naive_tree_covariance :: "tree \<Rightarrow> error + ndarray" where
  "naive_tree_covariance t =
     (case check_cov_tree_inputs t of
        Inl e \<Rightarrow> Inl e
      | Inr _ \<Rightarrow>
          (let n = length (tree_samples t)
           in Inr (fold (tree_cov_step t) (combinations_with_replacement n) (zeros n n))))"

subsection \<open>Array operations\<close>

text \<open>\<^verbatim>\<open>a.T\<close>: entry \<open>(j, i)\<close> of the result is entry \<open>(i, j)\<close> of \<open>a\<close>.\<close>

definition transpose_nd :: "ndarray \<Rightarrow> ndarray" where
  "transpose_nd a =
     \<lparr>shape0 = shape1 a, shape1 = shape0 a,
      rows = map (\<lambda>j. map (\<lambda>r. r ! j) (rows a)) [0..<shape1 a]\<rparr>"

text \<open>
  \<^verbatim>\<open>np.mean(a, axis=1)\<close>: one mean per row. For an array without columns numpy
  warns and yields nan in every position; the quotient below is then 0 in HOL. This
  only happens for a genotype matrix without samples, where the means are subtracted
  from an array without rows and no entry of the result is made from them.
\<close>

definition mean_axis1 :: "ndarray \<Rightarrow> real list" where
  "mean_axis1 a = map (\<lambda>r. sum_list r / real (shape1 a)) (rows a)"

text \<open>
  \<^verbatim>\<open>a - v\<close> for a two-dimensional \<open>a\<close> and a one-dimensional \<open>v\<close>, with numpy's
  broadcasting: \<open>v\<close> is subtracted from every row when the lengths agree, an axis of
  length one is stretched, and other shapes raise ValueError.
\<close>

definition sub_broadcast :: "ndarray \<Rightarrow> real list \<Rightarrow> error + ndarray" where
  "sub_broadcast a v =
     (if length v = shape1 a
      then Inr (a\<lparr>rows := map (\<lambda>r. map (\<lambda>k. r ! k - v ! k) [0..<shape1 a]) (rows a)\<rparr>)
      else if length v = 1
      then Inr (a\<lparr>rows := map (\<lambda>r. map (\<lambda>k. r ! k - v ! 0) [0..<shape1 a]) (rows a)\<rparr>)
      else if shape1 a = 1
      then Inr \<lparr>shape0 = shape0 a, shape1 = length v,
                rows = map (\<lambda>r. map (\<lambda>k. r ! 0 - v ! k) [0..<length v]) (rows a)\<rparr>
      else Inl (ValueError ''operands could not be broadcast together''))"

text \<open>\<^verbatim>\<open>a @ b\<close>, the matrix product; the inner dimensions must agree.\<close>

definition matmul :: "ndarray \<Rightarrow> ndarray \<Rightarrow> error + ndarray" where
  "matmul a b =
     (if shape1 a = shape0 b
      then Inr \<lparr>shape0 = shape0 a, shape1 = shape1 b,
                rows = map (\<lambda>r. map (\<lambda>j.
                         sum_list (map (\<lambda>k. r ! k * getitem b k j) [0..<shape1 a]))
                       [0..<shape1 b]) (rows a)\<rparr>
      else Inl (ValueError ''matmul: mismatch in core dimension''))"

text \<open>
  An arithmetic operation on two arrays of two dimensions. numpy broadcasts: along
  each axis the lengths must agree or one of them must be one, and an axis of length
  one is read at position 0 throughout.
\<close>

definition broadcast_dim :: "nat \<Rightarrow> nat \<Rightarrow> nat option" where
  "broadcast_dim m n =
     (if m = n then Some m else if m = 1 then Some n else if n = 1 then Some m else None)"

definition broadcast_get :: "ndarray \<Rightarrow> nat \<Rightarrow> nat \<Rightarrow> real" where
  "broadcast_get a i j =
     getitem a (if shape0 a = 1 then 0 else i) (if shape1 a = 1 then 0 else j)"

definition nd_binop :: "(real \<Rightarrow> real \<Rightarrow> real) \<Rightarrow> ndarray \<Rightarrow> ndarray \<Rightarrow> error + ndarray" where
  "nd_binop f a b =
     (case broadcast_dim (shape0 a) (shape0 b) of
        None \<Rightarrow> Inl (ValueError ''operands could not be broadcast together'')
      | Some r \<Rightarrow>
          (case broadcast_dim (shape1 a) (shape1 b) of
             None \<Rightarrow> Inl (ValueError ''operands could not be broadcast together'')
           | Some c \<Rightarrow>
               Inr \<lparr>shape0 = r, shape1 = c,
                    rows = map (\<lambda>i. map (\<lambda>j. f (broadcast_get a i j) (broadcast_get b i j))
                                [0..<c]) [0..<r]\<rparr>))"

definition nd_add :: "ndarray \<Rightarrow> ndarray \<Rightarrow> error + ndarray" where
  "nd_add a b = nd_binop (+) a b"

definition nd_sub :: "ndarray \<Rightarrow> ndarray \<Rightarrow> error + ndarray" where
  "nd_sub a b = nd_binop (-) a b"

text \<open>
  \<^verbatim>\<open>a += b\<close> stores the sum in \<open>a\<close>, which keeps its shape: \<open>b\<close> may be stretched,
  \<open>a\<close> may not.
\<close>

definition nd_iadd :: "ndarray \<Rightarrow> ndarray \<Rightarrow> error + ndarray" where
  "nd_iadd a b =
     (case nd_add a b of
        Inl e \<Rightarrow> Inl e
      | Inr c \<Rightarrow>
          if shape0 c = shape0 a \<and> shape1 c = shape1 a then Inr c
          else Inl (ValueError ''non-broadcastable output operand''))"

text \<open>
  \<^verbatim>\<open>a * c\<close> and \<^verbatim>\<open>a / c\<close> for a number \<open>c\<close>. Dividing by zero is a warning in numpy,
  with infinite or nan entries; the quotient is 0 in HOL.
\<close>

definition nd_scale :: "ndarray \<Rightarrow> real \<Rightarrow> ndarray" where
  "nd_scale a c = a\<lparr>rows := map (map (\<lambda>e. e * c)) (rows a)\<rparr>"

definition nd_divide :: "ndarray \<Rightarrow> real \<Rightarrow> ndarray" where
  "nd_divide a c = a\<lparr>rows := map (map (\<lambda>e. e / c)) (rows a)\<rparr>"

text \<open>\<^verbatim>\<open>a.diagonal()\<close> and \<^verbatim>\<open>np.diag(v)\<close> for a one-dimensional \<open>v\<close>.\<close>

definition diagonal :: "ndarray \<Rightarrow> real list" where
  "diagonal a = map (\<lambda>i. getitem a i i) [0..<min (shape0 a) (shape1 a)]"

definition diag :: "real list \<Rightarrow> ndarray" where
  "diag v =
     \<lparr>shape0 = length v, shape1 = length v,
      rows = map (\<lambda>i. map (\<lambda>j. if i = j then v ! i else 0) [0..<length v]) [0..<length v]\<rparr>"

text \<open>
  \<^verbatim>\<open>np.triu_indices(n)\<close>: the positions \<open>(i, j)\<close> with \<open>i \<le> j < n\<close> of the upper
  triangle, row by row. numpy returns the row and the column indices as two arrays;
  here they are paired.
\<close>

definition triu_indices :: "nat \<Rightarrow> (nat \<times> nat) list" where
  "triu_indices n = concat (map (\<lambda>i. map (Pair i) [i..<n]) [0..<n])"

text \<open>
  \<^verbatim>\<open>a[idx] = v\<close> for index arrays \<open>idx\<close>: the \<open>k\<close>-th value goes to the \<open>k\<close>-th
  position. A position outside the array raises IndexError; a value array of
  length one is used for every position, and any other length that differs from the
  number of positions raises ValueError.
\<close>

definition setitem_indices :: "ndarray \<Rightarrow> (nat \<times> nat) list \<Rightarrow> real list \<Rightarrow> error + ndarray" where
  "setitem_indices a idx v =
     (if list_ex (\<lambda>p. \<not> (fst p < shape0 a \<and> snd p < shape1 a)) idx then Inl IndexError
      else if length v = length idx
      then Inr (fold (\<lambda>pe c. setitem c (fst (fst pe)) (snd (fst pe)) (snd pe)) (zip idx v) a)
      else if length v = 1
      then Inr (fold (\<lambda>p c. setitem c (fst p) (snd p) (v ! 0)) idx a)
      else Inl (ValueError ''shape mismatch: value array could not be broadcast to indexing result''))"

subsection \<open>The genotype covariance\<close>

text \<open>
  \<^verbatim>\<open>naive_genotype_covariance\<close>, as a function of the genotype matrix \<open>G\<close> (sites by
  samples) that \<^verbatim>\<open>ts.genotype_matrix()\<close> returns: \<^verbatim>\<open>G = G.T - np.mean(G, axis=1)\<close>
  followed by \<^verbatim>\<open>G @ G.T\<close>.
\<close>

definition naive_genotype_covariance :: "ndarray \<Rightarrow> error + ndarray" where
  "naive_genotype_covariance G =
     (case sub_broadcast (transpose_nd G) (mean_axis1 G) of
        Inl e \<Rightarrow> Inl e
      | Inr A \<Rightarrow> matmul A (transpose_nd A))"

text \<open>
  The centred genotype of sample \<open>s\<close> at site \<open>k\<close>, as the specification words it: the
  genotype minus the mean of the site over all samples.
\<close>

definition centered :: "ndarray \<Rightarrow> nat \<Rightarrow> nat \<Rightarrow> real" where
  "centered G s k = getitem G k s - (\<Sum>j < shape1 G. getitem G k j) / real (shape1 G)"

subsection \<open>The covariance of a tree sequence\<close>

text \<open>
  Of a tree sequence the tests read \<^verbatim>\<open>ts.samples()\<close>, \<^verbatim>\<open>ts.trees()\<close>,
  \<^verbatim>\<open>ts.sequence_length\<close> and \<^verbatim>\<open>ts.genotype_matrix()\<close>, whose column \<open>k\<close> belongs to
  the \<open>k\<close>-th sample.
\<close>

record tree_sequence =
  ts_samples :: "int list"
  ts_trees :: "tree list"
  ts_sequence_length :: real
  ts_genotype_matrix :: ndarray

text \<open>
  The loop \<^verbatim>\<open>for tree in ts.trees(): cov += naive_tree_covariance(tree) * tree.span\<close>
  of \<^verbatim>\<open>naive_ts_covariance\<close>.
\<close>

fun ts_cov_loop :: "tree list \<Rightarrow> ndarray \<Rightarrow> error + ndarray" where
  "ts_cov_loop [] cov = Inr cov"
| "ts_cov_loop (t # ts) cov =
     (case naive_tree_covariance t of
        Inl e \<Rightarrow> Inl e
      | Inr c \<Rightarrow>
          (case nd_iadd cov (nd_scale c (tree_span t)) of
             Inl e \<Rightarrow> Inl e
           | Inr cov' \<Rightarrow> ts_cov_loop ts cov'))"

definition naive_ts_covariance :: "tree_sequence \<Rightarrow> error + ndarray" where
  "naive_ts_covariance ts =
     (let n = length (ts_samples ts)
      in case ts_cov_loop (ts_trees ts) (zeros n n) of
           Inl e \<Rightarrow> Inl e
         | Inr cov \<Rightarrow> Inr (nd_divide cov (ts_sequence_length ts)))"

subsection \<open>From the upper triangle to the full matrix\<close>

text \<open>
  \<^verbatim>\<open>cov + cov.T - np.diag(cov.diagonal())\<close>, the reflection that
  \<^verbatim>\<open>TestCovariance.verify\<close> applies.
\<close>

definition reflect_upper :: "ndarray \<Rightarrow> error + ndarray" where
  "reflect_upper cov =
     (case nd_add cov (transpose_nd cov) of
        Inl e \<Rightarrow> Inl e
      | Inr s \<Rightarrow> nd_sub s (diag (diagonal cov)))"

text \<open>
  The lines of \<^verbatim>\<open>TestCovariance.verify\<close> that turn a vector \<open>v\<close> of pair values into a
  matrix: \<^verbatim>\<open>cov = np.zeros((n, n))\<close>, \<^verbatim>\<open>cov[np.triu_indices(n)] = v\<close>, and the
  reflection.
\<close>

definition upper_to_full :: "nat \<Rightarrow> real list \<Rightarrow> error + ndarray" where
  "upper_to_full n v =
     (case setitem_indices (zeros n n) (triu_indices n) v of
        Inl e \<Rightarrow> Inl e
      | Inr cov \<Rightarrow> reflect_upper cov)"

subsection \<open>Summary functions\<close>

text \<open>
  Indexing of a one-dimensional array by a Python integer: a negative index counts
  from the end, an index outside the array raises IndexError.
\<close>

definition getx :: "real list \<Rightarrow> int \<Rightarrow> error + real" where
  "getx x i =
     (if 0 \<le> i \<and> i < int (length x) then Inr (x ! nat i)
      else if - int (length x) \<le> i \<and> i < 0 then Inr (x ! nat (int (length x) + i))
      else Inl IndexError)"

text \<open>
  The summary function \<^verbatim>\<open>f\<close> of \<^verbatim>\<open>genetic_relatedness\<close>, a list comprehension over
  \<open>i\<close> and \<open>j\<close> in \<^verbatim>\<open>range(n)\<close>. The Boolean \<^verbatim>\<open>sum(x) != num_samples\<close> multiplies as
  0 or 1; \<^verbatim>\<open>sum\<close> adds all entries of \<open>x\<close>. Reading \<^verbatim>\<open>x[i]\<close> for \<open>i < n\<close> needs
  \<open>n\<close> entries.
\<close>

definition genetic_relatedness_f :: "nat \<Rightarrow> nat \<Rightarrow> real list \<Rightarrow> error + real list" where
  "genetic_relatedness_f n num_samples x =
     (if n \<le> length x
      then Inr (concat (map (\<lambda>i. map (\<lambda>j.
              x ! i * x ! j * of_bool (sum_list x \<noteq> real num_samples)) [0..<n]) [0..<n]))
      else Inl IndexError)"

text \<open>The summary function \<^verbatim>\<open>f\<close> of \<^verbatim>\<open>genotype_relatedness\<close>.\<close>

definition genotype_relatedness_f :: "nat \<Rightarrow> real list \<Rightarrow> error + real list" where
  "genotype_relatedness_f n x =
     (if n \<le> length x
      then Inr (concat (map (\<lambda>i. map (\<lambda>j.
              (x ! i - sum_list x / real n) * (x ! j - sum_list x / real n)) [0..<n]) [0..<n]))
      else Inl IndexError)"

text \<open>
  The summary function \<^verbatim>\<open>f\<close> of \<^verbatim>\<open>c_genotype_relatedness\<close>. Its first loop adds
  \<^verbatim>\<open>x[k]\<close> for \<open>k\<close> in \<^verbatim>\<open>range(state_dim)\<close> to \<^verbatim>\<open>sumx\<close>, which starts as the Python
  integer 0.
\<close>

fun sum_loop :: "real list \<Rightarrow> nat list \<Rightarrow> real \<Rightarrow> error + real" where
  "sum_loop x [] sumx = Inr sumx"
| "sum_loop x (k # ks) sumx =
     (if k < length x then sum_loop x ks (sumx + x ! k) else Inl IndexError)"

text \<open>
  The second loop stores \<^verbatim>\<open>(x[i] - meanx) * (x[j] - meanx) / 2\<close> at position \<open>k\<close> of
  \<^verbatim>\<open>result\<close>, for the \<open>k\<close>-th pair \<open>(i, j)\<close> of \<^verbatim>\<open>indexes\<close>.
\<close>

fun result_loop ::
  "real list \<Rightarrow> real \<Rightarrow> (int \<times> int) list \<Rightarrow> nat \<Rightarrow> real list \<Rightarrow> error + real list" where
  "result_loop x meanx [] k result = Inr result"
| "result_loop x meanx (p # ps) k result =
     (case getx x (fst p) of
        Inl e \<Rightarrow> Inl e
      | Inr xi \<Rightarrow>
          (case getx x (snd p) of
             Inl e \<Rightarrow> Inl e
           | Inr xj \<Rightarrow>
               result_loop x meanx ps (Suc k) (result[k := (xi - meanx) * (xj - meanx) / 2])))"

text \<open>
  With no sample set, \<^verbatim>\<open>sumx\<close> is still the integer 0 and \<^verbatim>\<open>sumx / state_dim\<close> is a
  division of Python integers by zero.
\<close>

definition c_genotype_relatedness_f ::
  "nat \<Rightarrow> (int \<times> int) list \<Rightarrow> real list \<Rightarrow> error + real list" where
  "c_genotype_relatedness_f state_dim indexes x =
     (case sum_loop x [0..<state_dim] 0 of
        Inl e \<Rightarrow> Inl e
      | Inr sumx \<Rightarrow>
          if state_dim = 0 then Inl ZeroDivisionError
          else result_loop x (sumx / real state_dim) indexes 0
                 (replicate (length indexes) 0))"

text \<open>The index pairs of a list that lie in \<^verbatim>\<open>range(n)\<close>.\<close>

definition valid_indexes :: "nat \<Rightarrow> (int \<times> int) list \<Rightarrow> bool" where
  "valid_indexes n indexes \<longleftrightarrow>
     list_all (\<lambda>p. 0 \<le> fst p \<and> fst p < int n \<and> 0 \<le> snd p \<and> snd p < int n) indexes"

subsection \<open>The sample count statistic\<close>









subsection \<open>Example trees\<close>

text \<open>
  Three small inputs: a tree with the two roots 3 and 4, a tree with no root, and a
  tree with the single root 2 whose node 1 has one child.
\<close>

definition two_root_tree :: tree where
  "two_root_tree =
     \<lparr>tree_roots = [3, 4], tree_nodes = [3, 0, 1, 4, 2],
      tree_num_children = (\<lambda>u. if u = 3 then 2 else 0),
      tree_mrca = (\<lambda>u v. if u = v then u else if u = 2 \<or> v = 2 then -1 else 3),
      tree_time = (\<lambda>u. if u = 3 then 1 else 0),
      tree_root = 3, tree_span = 1, tree_samples = [0, 1, 2]\<rparr>"

definition no_root_tree :: tree where
  "no_root_tree =
     \<lparr>tree_roots = [], tree_nodes = [],
      tree_num_children = (\<lambda>u. 0),
      tree_mrca = (\<lambda>u v. -1),
      tree_time = (\<lambda>u. 0),
      tree_root = -1, tree_span = 1, tree_samples = []\<rparr>"

definition unary_tree :: tree where
  "unary_tree =
     \<lparr>tree_roots = [2], tree_nodes = [2, 1, 0],
      tree_num_children = (\<lambda>u. if u = 2 \<or> u = 1 then 1 else 0),
      tree_mrca = (\<lambda>u v. if u = v then u else 2),
      tree_time = (\<lambda>u. if u = 2 then 2 else if u = 1 then 1 else 0),
      tree_root = 2, tree_span = 1, tree_samples = [0]\<rparr>"

subsection \<open>Example genotype matrices\<close>

text \<open>
  A matrix without sites for two samples, a matrix of two sites without samples, and
  a matrix of two sites for three samples.
\<close>

definition no_sites_matrix :: ndarray where
  "no_sites_matrix = \<lparr>shape0 = 0, shape1 = 2, rows = []\<rparr>"

definition no_samples_matrix :: ndarray where
  "no_samples_matrix = \<lparr>shape0 = 2, shape1 = 0, rows = [[], []]\<rparr>"

definition two_site_matrix :: ndarray where
  "two_site_matrix = \<lparr>shape0 = 2, shape1 = 3, rows = [[0, 1, 1], [1, 0, 0]]\<rparr>"

subsection \<open>Example tree sequence\<close>

text \<open>
  A tree with the samples 0 and 1 below the root 2, which is at time 1, and the tree
  sequence made of this tree alone.
\<close>

definition cherry_tree :: tree where
  "cherry_tree =
     \<lparr>tree_roots = [2], tree_nodes = [2, 0, 1],
      tree_num_children = (\<lambda>u. if u = 2 then 2 else 0),
      tree_mrca = (\<lambda>u v. if u = v then u else 2),
      tree_time = (\<lambda>u. if u = 2 then 1 else 0),
      tree_root = 2, tree_span = 1, tree_samples = [0, 1]\<rparr>"

definition cherry_ts :: tree_sequence where
  "cherry_ts =
     \<lparr>ts_samples = [0, 1], ts_trees = [cherry_tree], ts_sequence_length = 1,
      ts_genotype_matrix = \<lparr>shape0 = 1, shape1 = 2, rows = [[1, 0]]\<rparr>\<rparr>"




section \<open>Rejection of unsupported trees\<close>

lemma check_unary_found:
  "\<exists>u \<in> set us. nc u = 1 \<Longrightarrow>
     check_unary nc us = Inl (ValueError ''Unary nodes are not supported'')"
  by (induction us) auto

text \<open>
  C9. \<^verbatim>\<open>check_cov_tree_inputs\<close> requires exactly one root: for every tree whose number
  of roots differs from one, a tree with no root included, it raises the ValueError
  with the message "Trees must have one root".
\<close>

theorem check_cov_tree_inputs_not_one_root:
  "length (tree_roots t) \<noteq> 1 \<Longrightarrow>
     check_cov_tree_inputs t = Inl (ValueError ''Trees must have one root'')"
  by (simp add: check_cov_tree_inputs_def)

theorem check_cov_tree_inputs_not_one_root_witness:
  "length (tree_roots no_root_tree) = 0 \<and>
   check_cov_tree_inputs no_root_tree = Inl (ValueError ''Trees must have one root'')"
  using check_cov_tree_inputs_not_one_root [of no_root_tree]
  by (simp add: no_root_tree_def)

text \<open>
  C2. \<^verbatim>\<open>naive_tree_covariance\<close> raises a ValueError, and returns no matrix, for every
  tree that has two or more roots or that has a node with exactly one child. The
  message is "Trees must have one root" for two or more roots and "Unary nodes are
  not supported" for a tree with one root and a node with one child; the two messages
  differ.
\<close>

theorem naive_tree_covariance_rejects:
  "(2 \<le> length (tree_roots t) \<or> (\<exists>u \<in> set (tree_nodes t). tree_num_children t u = 1) \<longrightarrow>
      (\<exists>msg. naive_tree_covariance t = Inl (ValueError msg))) \<and>
   (2 \<le> length (tree_roots t) \<longrightarrow>
      naive_tree_covariance t = Inl (ValueError ''Trees must have one root'')) \<and>
   (length (tree_roots t) = 1 \<and> (\<exists>u \<in> set (tree_nodes t). tree_num_children t u = 1) \<longrightarrow>
      naive_tree_covariance t = Inl (ValueError ''Unary nodes are not supported'')) \<and>
   ''Trees must have one root'' \<noteq> ''Unary nodes are not supported''"
proof -
  have roots: "naive_tree_covariance t = Inl (ValueError ''Trees must have one root'')"
    if "length (tree_roots t) \<noteq> 1"
    using that by (simp add: naive_tree_covariance_def check_cov_tree_inputs_def)
  have unary: "naive_tree_covariance t = Inl (ValueError ''Unary nodes are not supported'')"
    if "length (tree_roots t) = 1" and "\<exists>u \<in> set (tree_nodes t). tree_num_children t u = 1"
    using that check_unary_found [of "tree_nodes t" "tree_num_children t"]
    by (simp add: naive_tree_covariance_def check_cov_tree_inputs_def)
  have any: "\<exists>msg. naive_tree_covariance t = Inl (ValueError msg)"
    if "2 \<le> length (tree_roots t) \<or> (\<exists>u \<in> set (tree_nodes t). tree_num_children t u = 1)"
  proof (cases "length (tree_roots t) = 1")
    case True
    with that unary show ?thesis by auto
  next
    case False
    with roots show ?thesis by blast
  qed
  from roots unary any show ?thesis by auto
qed

theorem naive_tree_covariance_rejects_witness:
  "2 \<le> length (tree_roots two_root_tree) \<and>
   naive_tree_covariance two_root_tree = Inl (ValueError ''Trees must have one root'') \<and>
   length (tree_roots unary_tree) = 1 \<and>
   (\<exists>u \<in> set (tree_nodes unary_tree). tree_num_children unary_tree u = 1) \<and>
   naive_tree_covariance unary_tree = Inl (ValueError ''Unary nodes are not supported'')"
  using naive_tree_covariance_rejects [of two_root_tree]
    naive_tree_covariance_rejects [of unary_tree]
  by (simp add: two_root_tree_def unary_tree_def)

section \<open>The summary functions\<close>

lemma length_concat_map_upt:
  "length (concat (map (\<lambda>i. map (g i) [0..<m]) [0..<n])) = n * m"
  by (induction n) simp_all

lemma nth_concat_map_upt:
  "i < n \<Longrightarrow> j < m \<Longrightarrow> concat (map (\<lambda>i. map (g i) [0..<m]) [0..<n]) ! (i * m + j) = g i j"
proof (induction n)
  case 0
  then show ?case by simp
next
  case (Suc n)
  show ?case
  proof (cases "i < n")
    case True
    then have "Suc i \<le> n" by simp
    then have "Suc i * m \<le> n * m" by (rule mult_le_mono1)
    with Suc.prems(2) have "i * m + j < n * m" by simp
    with True Suc show ?thesis
      by (simp add: nth_append length_concat_map_upt)
  next
    case False
    with Suc.prems have "i = n" by simp
    with Suc.prems show ?thesis
      by (simp add: nth_append length_concat_map_upt)
  qed
qed

lemma concat_replicate_replicate:
  "concat (replicate n (replicate m c)) = replicate (n * m) c"
  by (induction n) (simp_all add: replicate_add)

lemma sum_loop_eq:
  "\<forall>k \<in> set ks. k < length x \<Longrightarrow> sum_loop x ks s = Inr (s + sum_list (map ((!) x) ks))"
  by (induction ks arbitrary: s) (simp_all add: add.assoc)

lemma sum_loop_all: "sum_loop x [0..<length x] 0 = Inr (sum_list x)"
  using sum_loop_eq [of "[0..<length x]" x 0] by (simp add: map_nth)

lemma getx_valid: "0 \<le> i \<Longrightarrow> i < int (length x) \<Longrightarrow> getx x i = Inr (x ! nat i)"
  by (simp add: getx_def)

lemma result_loop_eq:
  "valid_indexes (length x) ps \<Longrightarrow> k + length ps \<le> length result \<Longrightarrow>
     result_loop x meanx ps k result =
       Inr (take k result
            @ map (\<lambda>p. (x ! nat (fst p) - meanx) * (x ! nat (snd p) - meanx) / 2) ps
            @ drop (k + length ps) result)"
proof (induction ps arbitrary: k result)
  case Nil
  then show ?case by simp
next
  case (Cons p ps)
  from Cons.prems have p: "getx x (fst p) = Inr (x ! nat (fst p))" "getx x (snd p) = Inr (x ! nat (snd p))"
    by (simp_all add: valid_indexes_def getx_valid)
  from Cons.prems have ps: "valid_indexes (length x) ps"
    by (simp add: valid_indexes_def)
  from Cons.prems have k: "k < length result" by simp
  let ?v = "(x ! nat (fst p) - meanx) * (x ! nat (snd p) - meanx) / 2"
  have "result_loop x meanx (p # ps) k result = result_loop x meanx ps (Suc k) (result[k := ?v])"
    by (simp add: p)
  also have "\<dots> = Inr (take (Suc k) (result[k := ?v])
            @ map (\<lambda>p. (x ! nat (fst p) - meanx) * (x ! nat (snd p) - meanx) / 2) ps
            @ drop (Suc k + length ps) (result[k := ?v]))"
    using Cons.prems by (intro Cons.IH ps) simp
  also have "take (Suc k) (result[k := ?v]) = take k result @ [?v]"
    using k by (simp add: take_Suc_conv_app_nth)
  also have "drop (Suc k + length ps) (result[k := ?v]) = drop (k + length (p # ps)) result"
    by simp
  finally show ?case by simp
qed

lemma c_genotype_relatedness_f_eq:
  assumes "0 < length x" and "valid_indexes (length x) indexes"
  shows "c_genotype_relatedness_f (length x) indexes x =
           Inr (map (\<lambda>p. (x ! nat (fst p) - sum_list x / real (length x))
                        * (x ! nat (snd p) - sum_list x / real (length x)) / 2) indexes)"
  using assms result_loop_eq [of x indexes 0 "replicate (length indexes) 0"]
  by (simp add: c_genotype_relatedness_f_def sum_loop_all)

text \<open>
  C4. For a count vector \<open>x\<close> over \<open>n \<ge> 1\<close> sample sets and a list of \<open>m\<close> index pairs
  drawn from \<^verbatim>\<open>range(n)\<close>, the summary function of \<^verbatim>\<open>c_genotype_relatedness\<close> returns a
  vector of length \<open>m\<close> whose \<open>k\<close>-th entry is \<open>(x[i] - mean) * (x[j] - mean) / 2\<close> for
  the \<open>k\<close>-th pair \<open>(i, j)\<close>, with \<open>mean = sum(x) / n\<close>.
\<close>

theorem c_genotype_relatedness_f_entries:
  assumes "length x = n" and "0 < n" and "valid_indexes n indexes"
  shows "\<exists>result. c_genotype_relatedness_f n indexes x = Inr result \<and>
           length result = length indexes \<and>
           (\<forall>k < length indexes.
              result ! k =
                (x ! nat (fst (indexes ! k)) - sum_list x / real n)
                * (x ! nat (snd (indexes ! k)) - sum_list x / real n) / 2)"
  using assms c_genotype_relatedness_f_eq [of x indexes] by auto

theorem c_genotype_relatedness_f_entries_witness:
  "valid_indexes 3 [(0, 0), (0, 2), (1, 2)] \<and>
   (\<exists>result. c_genotype_relatedness_f 3 [(0, 0), (0, 2), (1, 2)] [1, 0, 2] = Inr result \<and>
      length result = 3 \<and> result ! 0 = 0 \<and> result ! 1 = 0 \<and> result ! 2 = - 1 / 2)"
proof -
  let ?ix = "[(0, 0), (0, 2), (1, 2)] :: (int \<times> int) list"
  let ?x = "[1, 0, 2] :: real list"
  have v: "valid_indexes 3 ?ix"
    by (simp add: valid_indexes_def)
  from c_genotype_relatedness_f_entries [of ?x 3 ?ix, OF _ _ v]
  obtain result where r: "c_genotype_relatedness_f 3 ?ix ?x = Inr result"
    "length result = 3"
    "\<forall>k < 3. result ! k =
       (?x ! nat (fst (?ix ! k)) - sum_list ?x / real 3)
       * (?x ! nat (snd (?ix ! k)) - sum_list ?x / real 3) / 2"
    by auto
  have "result ! 0 = 0" using r(3) [rule_format, of 0] by simp
  moreover have "result ! 1 = 0" using r(3) [rule_format, of 1] by simp
  moreover have "result ! 2 = - 1 / 2" using r(3) [rule_format, of 2] by simp
  ultimately show ?thesis using v r(1,2) by simp
qed

text \<open>
  C10. On a constant count vector (all \<open>n \<ge> 1\<close> entries equal to \<open>c\<close>, so the all-zero
  and the all-ones vector in particular) the summary function of
  \<^verbatim>\<open>c_genotype_relatedness\<close> returns the zero vector, because every entry equals the
  mean.
\<close>

theorem c_genotype_relatedness_f_constant:
  assumes "0 < n" and "valid_indexes n indexes"
  shows "c_genotype_relatedness_f n indexes (replicate n c) = Inr (replicate (length indexes) 0)"
proof -
  have "\<And>p. p \<in> set indexes \<Longrightarrow> replicate n c ! nat (fst p) = c \<and> replicate n c ! nat (snd p) = c"
    using assms(2) by (auto simp: valid_indexes_def list_all_iff)
  then have "map (\<lambda>p. (replicate n c ! nat (fst p) - sum_list (replicate n c) / real n)
                   * (replicate n c ! nat (snd p) - sum_list (replicate n c) / real n) / 2) indexes
             = map (\<lambda>p. 0) indexes"
    using assms(1) by (intro map_cong refl) (simp add: sum_list_replicate)
  with assms c_genotype_relatedness_f_eq [of "replicate n c" indexes] show ?thesis
    by (simp add: map_replicate_const)
qed

theorem c_genotype_relatedness_f_constant_witness:
  "valid_indexes 2 [(0, 0), (0, 1), (1, 1)] \<and>
   c_genotype_relatedness_f 2 [(0, 0), (0, 1), (1, 1)] [1, 1] = Inr [0, 0, 0] \<and>
   c_genotype_relatedness_f 2 [(0, 0), (0, 1), (1, 1)] [0, 0] = Inr [0, 0, 0]"
proof -
  have v: "valid_indexes 2 [(0, 0), (0, 1), (1, 1)]"
    by (simp add: valid_indexes_def)
  have r: "replicate 2 c = [c, c]" for c :: real
    by (simp add: numeral_2_eq_2)
  from c_genotype_relatedness_f_constant [of 2 "[(0, 0), (0, 1), (1, 1)]" 1, OF _ v]
    c_genotype_relatedness_f_constant [of 2 "[(0, 0), (0, 1), (1, 1)]" 0, OF _ v] v
  show ?thesis by (simp add: r)
qed

text \<open>
  C6. For a count vector \<open>x\<close> with an entry for each of the \<open>n\<close> sample sets, the summary
  function of \<^verbatim>\<open>genetic_relatedness\<close> returns the zero vector of length \<open>n * n\<close> when
  \<open>sum(x) = num_samples\<close>; otherwise the entry for the pair \<open>(i, j)\<close>, at position
  \<open>i * n + j\<close>, is \<open>x[i] * x[j]\<close>.
\<close>

theorem genetic_relatedness_f_guard:
  assumes "length x = n"
  shows "(sum_list x = real num_samples \<longrightarrow>
            genetic_relatedness_f n num_samples x = Inr (replicate (n * n) 0)) \<and>
         (sum_list x \<noteq> real num_samples \<longrightarrow>
            (\<exists>result. genetic_relatedness_f n num_samples x = Inr result \<and>
               length result = n * n \<and>
               (\<forall>i < n. \<forall>j < n. result ! (i * n + j) = x ! i * x ! j)))"
proof (intro conjI impI)
  assume s: "sum_list x = real num_samples"
  have "concat (map (\<lambda>i. map (\<lambda>j. 0::real) [0..<n]) [0..<n]) = replicate (n * n) 0"
    by (simp add: map_replicate_const concat_replicate_replicate)
  with s assms show "genetic_relatedness_f n num_samples x = Inr (replicate (n * n) 0)"
    by (simp add: genetic_relatedness_f_def)
next
  assume s: "sum_list x \<noteq> real num_samples"
  let ?r = "concat (map (\<lambda>i. map (\<lambda>j. x ! i * x ! j) [0..<n]) [0..<n])"
  from s assms have "genetic_relatedness_f n num_samples x = Inr ?r"
    by (simp add: genetic_relatedness_f_def)
  moreover have "length ?r = n * n"
    by (rule length_concat_map_upt)
  moreover have "\<forall>i < n. \<forall>j < n. ?r ! (i * n + j) = x ! i * x ! j"
    by (simp add: nth_concat_map_upt)
  ultimately show "\<exists>result. genetic_relatedness_f n num_samples x = Inr result \<and>
      length result = n * n \<and> (\<forall>i < n. \<forall>j < n. result ! (i * n + j) = x ! i * x ! j)"
    by blast
qed

theorem genetic_relatedness_f_guard_witness:
  "genetic_relatedness_f 2 2 [1, 1] = Inr [0, 0, 0, 0] \<and>
   genetic_relatedness_f 2 2 [0, 1] = Inr [0, 0, 0, 1]"
proof -
  have "genetic_relatedness_f 2 2 [1, 1] = Inr (replicate (2 * 2) 0)"
    using genetic_relatedness_f_guard [of "[1, 1]" 2 2] by simp
  moreover have "genetic_relatedness_f 2 2 [0, 1] = Inr [0, 0, 0, 1]"
    using genetic_relatedness_f_guard [of "[0, 1]" 2 2]
    by (simp add: genetic_relatedness_f_def upt_rec)
  ultimately show ?thesis
    by (simp add: numeral_eq_Suc)
qed

section \<open>The genotype covariance\<close>

lemma sum_list_upt_sum: "sum_list (map f [0..<m]) = (\<Sum>k < m. f k)"
  by (simp add: interv_sum_list_conv_sum_set_nat atLeast0LessThan)

lemma wf_row_length: "wf_ndarray a \<Longrightarrow> i < shape0 a \<Longrightarrow> length (rows a ! i) = shape1 a"
  by (simp add: wf_ndarray_def list_all_length)

lemma wf_row_sum:
  assumes "wf_ndarray a" and "i < shape0 a"
  shows "sum_list (rows a ! i) = (\<Sum>j < shape1 a. getitem a i j)"
  using wf_row_length [OF assms]
  by (simp add: sum_list_sum_nth getitem_def atLeast0LessThan)

lemma sub_broadcast_centered:
  assumes "wf_ndarray G"
  shows "\<exists>A. sub_broadcast (transpose_nd G) (mean_axis1 G) = Inr A \<and>
           shape0 A = shape1 G \<and> shape1 A = shape0 G \<and> length (rows A) = shape1 G \<and>
           (\<forall>s < shape1 G. length (rows A ! s) = shape0 G \<and>
              (\<forall>k < shape0 G. rows A ! s ! k = centered G s k))"
proof -
  let ?A = "(transpose_nd G)\<lparr>rows := map (\<lambda>r. map (\<lambda>k. r ! k - mean_axis1 G ! k)
              [0..<shape1 (transpose_nd G)]) (rows (transpose_nd G))\<rparr>"
  from assms have len: "length (mean_axis1 G) = shape1 (transpose_nd G)"
    by (simp add: mean_axis1_def transpose_nd_def wf_ndarray_def)
  then have "sub_broadcast (transpose_nd G) (mean_axis1 G) = Inr ?A"
    by (simp add: sub_broadcast_def)
  moreover have "shape0 ?A = shape1 G" "shape1 ?A = shape0 G" "length (rows ?A) = shape1 G"
    by (simp_all add: transpose_nd_def)
  moreover have "length (rows ?A ! s) = shape0 G \<and> (\<forall>k < shape0 G. rows ?A ! s ! k = centered G s k)"
    if s: "s < shape1 G" for s
  proof (intro conjI allI impI)
    show "length (rows ?A ! s) = shape0 G"
      using s by (simp add: transpose_nd_def)
  next
    fix k assume k: "k < shape0 G"
    with assms have "length (rows G) = shape0 G" by (simp add: wf_ndarray_def)
    with s k have "rows ?A ! s ! k = rows G ! k ! s - sum_list (rows G ! k) / real (shape1 G)"
      by (simp add: transpose_nd_def mean_axis1_def)
    with wf_row_sum [OF assms k] show "rows ?A ! s ! k = centered G s k"
      by (simp add: centered_def getitem_def)
  qed
  ultimately show ?thesis by blast
qed

lemma matmul_self_transpose:
  assumes "length (rows A) = shape0 A"
  shows "\<exists>C. matmul A (transpose_nd A) = Inr C \<and> shape0 C = shape0 A \<and> shape1 C = shape0 A \<and>
           wf_ndarray C \<and>
           (\<forall>s < shape0 A. \<forall>t < shape0 A.
              getitem C s t = (\<Sum>k < shape1 A. rows A ! s ! k * rows A ! t ! k))"
proof -
  let ?C = "\<lparr>shape0 = shape0 A, shape1 = shape0 A,
             rows = map (\<lambda>r. map (\<lambda>j.
                      sum_list (map (\<lambda>k. r ! k * getitem (transpose_nd A) k j) [0..<shape1 A]))
                    [0..<shape0 A]) (rows A)\<rparr>"
  have "matmul A (transpose_nd A) = Inr ?C"
    by (simp add: matmul_def transpose_nd_def)
  moreover have "wf_ndarray ?C"
    using assms by (simp add: wf_ndarray_def list_all_iff)
  moreover have "getitem ?C s t = (\<Sum>k < shape1 A. rows A ! s ! k * rows A ! t ! k)"
    if "s < shape0 A" "t < shape0 A" for s t
  proof -
    have "getitem ?C s t =
            sum_list (map (\<lambda>k. rows A ! s ! k * getitem (transpose_nd A) k t) [0..<shape1 A])"
      using that assms by (simp add: getitem_def)
    also have "\<dots> = (\<Sum>k < shape1 A. rows A ! s ! k * getitem (transpose_nd A) k t)"
      by (rule sum_list_upt_sum)
    also have "\<dots> = (\<Sum>k < shape1 A. rows A ! s ! k * rows A ! t ! k)"
      using that assms by (intro sum.cong refl) (simp add: getitem_def transpose_nd_def)
    finally show ?thesis .
  qed
  ultimately show ?thesis by (intro exI [of _ ?C]) simp
qed

lemma naive_genotype_covariance_entries:
  assumes "wf_ndarray G"
  shows "\<exists>C. naive_genotype_covariance G = Inr C \<and> wf_ndarray C \<and>
           shape0 C = shape1 G \<and> shape1 C = shape1 G \<and>
           (\<forall>s < shape1 G. \<forall>t < shape1 G.
              getitem C s t = (\<Sum>k < shape0 G. centered G s k * centered G t k))"
proof -
  from sub_broadcast_centered [OF assms] obtain A where
    A: "sub_broadcast (transpose_nd G) (mean_axis1 G) = Inr A"
      "shape0 A = shape1 G" "shape1 A = shape0 G" "length (rows A) = shape1 G"
      "\<forall>s < shape1 G. length (rows A ! s) = shape0 G \<and>
          (\<forall>k < shape0 G. rows A ! s ! k = centered G s k)"
    by blast
  from A(2,4) have "length (rows A) = shape0 A" by simp
  from matmul_self_transpose [OF this] obtain C where
    C: "matmul A (transpose_nd A) = Inr C" "shape0 C = shape0 A" "shape1 C = shape0 A"
      "wf_ndarray C"
      "\<forall>s < shape0 A. \<forall>t < shape0 A.
          getitem C s t = (\<Sum>k < shape1 A. rows A ! s ! k * rows A ! t ! k)"
    by blast
  have "getitem C s t = (\<Sum>k < shape0 G. centered G s k * centered G t k)"
    if "s < shape1 G" "t < shape1 G" for s t
  proof -
    from that C(5) A(2,3) have "getitem C s t = (\<Sum>k < shape0 G. rows A ! s ! k * rows A ! t ! k)"
      by simp
    also from that A(5) have "\<dots> = (\<Sum>k < shape0 G. centered G s k * centered G t k)"
      by (intro sum.cong refl) simp
    finally show ?thesis .
  qed
  with A C show ?thesis
    by (simp add: naive_genotype_covariance_def)
qed

text \<open>
  C5. For a genotype matrix \<open>G\<close> of sites by samples, and so for every non-empty one,
  \<^verbatim>\<open>naive_genotype_covariance\<close> returns the \<open>n\<close> by \<open>n\<close> matrix of the products of
  centred genotype vectors: entry \<open>(s, t)\<close> is the sum over the sites \<open>k\<close> of
  \<open>A[s][k] * A[t][k]\<close>, where \<open>A[s][k]\<close> is \<open>G[k][s]\<close> minus the mean of site \<open>k\<close> over
  all samples. The sum is not divided by the number of sites.
\<close>

theorem naive_genotype_covariance_centered_product:
  assumes "wf_ndarray G"
  shows "\<exists>C. naive_genotype_covariance G = Inr C \<and>
           shape0 C = shape1 G \<and> shape1 C = shape1 G \<and>
           (\<forall>s < shape1 G. \<forall>t < shape1 G.
              getitem C s t = (\<Sum>k < shape0 G. centered G s k * centered G t k))"
  using naive_genotype_covariance_entries [OF assms] by blast

theorem naive_genotype_covariance_centered_product_witness:
  "wf_ndarray two_site_matrix \<and>
   (\<exists>C. naive_genotype_covariance two_site_matrix = Inr C \<and>
      shape0 C = 3 \<and> shape1 C = 3 \<and> getitem C 0 1 = - 4 / 9 \<and> getitem C 1 2 = 2 / 9)"
proof -
  have wf: "wf_ndarray two_site_matrix"
    by (simp add: wf_ndarray_def two_site_matrix_def)
  from naive_genotype_covariance_centered_product [OF wf] obtain C where
    C: "naive_genotype_covariance two_site_matrix = Inr C"
      "shape0 C = shape1 two_site_matrix" "shape1 C = shape1 two_site_matrix"
      "\<forall>s < shape1 two_site_matrix. \<forall>t < shape1 two_site_matrix.
          getitem C s t =
            (\<Sum>k < shape0 two_site_matrix. centered two_site_matrix s k * centered two_site_matrix t k)"
    by blast
  have sh: "shape0 two_site_matrix = 2" "shape1 two_site_matrix = 3"
    by (simp_all add: two_site_matrix_def)
  have c: "centered two_site_matrix 0 0 = - 2 / 3" "centered two_site_matrix 0 (Suc 0) = 2 / 3"
    "centered two_site_matrix (Suc 0) 0 = 1 / 3" "centered two_site_matrix (Suc 0) (Suc 0) = - 1 / 3"
    "centered two_site_matrix (Suc (Suc 0)) 0 = 1 / 3"
    "centered two_site_matrix (Suc (Suc 0)) (Suc 0) = - 1 / 3"
    by (simp_all add: centered_def two_site_matrix_def getitem_def numeral_3_eq_3)
  have "getitem C 0 1 = - 4 / 9"
    using C(4) [rule_format, of 0 1] by (simp add: sh numeral_2_eq_2 c)
  moreover have "getitem C 1 2 = 2 / 9"
    using C(4) [rule_format, of 1 2] by (simp add: sh numeral_2_eq_2 c)
  ultimately show ?thesis
    using wf C(1-3) by (simp add: sh)
qed

text \<open>
  C3, as stated, fails: \<^verbatim>\<open>naive_genotype_covariance\<close> has no check of the shape of
  \<open>G\<close>. For the matrix without sites for two samples it returns the 2 by 2 zero
  matrix.
\<close>

theorem naive_genotype_covariance_no_sites_counterexample:
  "shape0 no_sites_matrix = 0 \<and> wf_ndarray no_sites_matrix \<and>
   naive_genotype_covariance no_sites_matrix = Inr (zeros 2 2)"
  by (simp add: no_sites_matrix_def wf_ndarray_def zeros_def naive_genotype_covariance_def
      sub_broadcast_def transpose_nd_def mean_axis1_def matmul_def upt_rec numeral_2_eq_2)

text \<open>
  C3, amended. \<^verbatim>\<open>naive_genotype_covariance\<close> raises no error for any genotype matrix:
  it always returns a matrix. Without sites the result is the \<open>n\<close> by \<open>n\<close> zero matrix
  for the \<open>n\<close> samples, and without samples it is the empty 0 by 0 matrix.
\<close>

theorem naive_genotype_covariance_never_raises:
  assumes "wf_ndarray G"
  shows "(\<exists>C. naive_genotype_covariance G = Inr C) \<and>
         (shape0 G = 0 \<longrightarrow>
            naive_genotype_covariance G = Inr (zeros (shape1 G) (shape1 G))) \<and>
         (shape1 G = 0 \<longrightarrow> naive_genotype_covariance G = Inr (zeros 0 0))"
proof (intro conjI impI)
  from naive_genotype_covariance_entries [OF assms]
  show "\<exists>C. naive_genotype_covariance G = Inr C" by blast
next
  assume "shape0 G = 0"
  with assms have "rows G = []" by (simp add: wf_ndarray_def)
  with \<open>shape0 G = 0\<close> show "naive_genotype_covariance G = Inr (zeros (shape1 G) (shape1 G))"
    by (simp add: naive_genotype_covariance_def sub_broadcast_def transpose_nd_def
        mean_axis1_def matmul_def zeros_def map_replicate_const comp_def)
next
  assume "shape1 G = 0"
  with assms have "length (mean_axis1 G) = shape0 G"
    by (simp add: mean_axis1_def wf_ndarray_def)
  with \<open>shape1 G = 0\<close> show "naive_genotype_covariance G = Inr (zeros 0 0)"
    by (simp add: naive_genotype_covariance_def sub_broadcast_def transpose_nd_def
        matmul_def zeros_def)
qed

theorem naive_genotype_covariance_never_raises_witness:
  "wf_ndarray no_samples_matrix \<and> shape1 no_samples_matrix = 0 \<and>
   naive_genotype_covariance no_samples_matrix = Inr (zeros 0 0)"
proof -
  have wf: "wf_ndarray no_samples_matrix"
    by (simp add: wf_ndarray_def no_samples_matrix_def)
  with naive_genotype_covariance_never_raises [OF wf] show ?thesis
    by (simp add: no_samples_matrix_def)
qed

section \<open>Symmetry of the covariance matrices\<close>

subsection \<open>Writing entries\<close>

lemma wf_zeros: "wf_ndarray (zeros n m)"
  by (simp add: wf_ndarray_def zeros_def list_all_iff)

lemma getitem_zeros: "i < n \<Longrightarrow> j < m \<Longrightarrow> getitem (zeros n m) i j = 0"
  by (simp add: getitem_def zeros_def)

lemma symmetric_zeros: "symmetric (zeros n n)"
  by (simp add: symmetric_def getitem_def zeros_def)

lemma shape_setitem: "shape0 (setitem a i j v) = shape0 a" "shape1 (setitem a i j v) = shape1 a"
  by (simp_all add: setitem_def)

lemma wf_setitem: "wf_ndarray a \<Longrightarrow> wf_ndarray (setitem a i j v)"
  by (cases "i < length (rows a)")
     (auto simp: wf_ndarray_def setitem_def list_all_length nth_list_update list_update_beyond)

lemma getitem_setitem:
  assumes "wf_ndarray a" and "i < shape0 a" and "j < shape1 a"
  shows "getitem (setitem a i j v) p q = (if p = i \<and> q = j then v else getitem a p q)"
proof -
  from assms have "i < length (rows a)" "j < length (rows a ! i)"
    by (simp_all add: wf_ndarray_def list_all_length)
  then show ?thesis
    by (simp add: getitem_def setitem_def nth_list_update)
qed

lemma getitem_setitem_other:
  "(p, q) \<noteq> (i, j) \<Longrightarrow> getitem (setitem a i j v) p q = getitem a p q"
  by (cases "i < length (rows a)")
     (auto simp: getitem_def setitem_def nth_list_update list_update_beyond)

lemma tree_cov_step_shape:
  "shape0 (tree_cov_step t p c) = shape0 c" "shape1 (tree_cov_step t p c) = shape1 c"
  by (simp_all add: tree_cov_step_def Let_def shape_setitem)

lemma wf_tree_cov_step: "wf_ndarray c \<Longrightarrow> wf_ndarray (tree_cov_step t p c)"
  by (simp add: tree_cov_step_def Let_def wf_setitem)

lemma tree_cov_step_getitem:
  assumes "wf_ndarray c" and "fst p < shape0 c" and "snd p < shape0 c" and "shape1 c = shape0 c"
  shows "getitem (tree_cov_step t p c) a b =
           (if (a = fst p \<and> b = snd p) \<or> (a = snd p \<and> b = fst p)
            then tree_time t (tree_root t)
                 - tree_time t (tree_mrca t (tree_samples t ! fst p) (tree_samples t ! snd p))
            else getitem c a b)"
proof -
  let ?v = "tree_time t (tree_root t)
            - tree_time t (tree_mrca t (tree_samples t ! fst p) (tree_samples t ! snd p))"
  let ?c1 = "setitem c (fst p) (snd p) ?v"
  have wf1: "wf_ndarray ?c1" using assms(1) by (rule wf_setitem)
  have e2: "getitem ?c1 (fst p) (snd p) = ?v"
    using assms by (simp add: getitem_setitem)
  have step: "tree_cov_step t p c = setitem ?c1 (snd p) (fst p) ?v"
    by (simp add: tree_cov_step_def Let_def e2)
  have e1: "getitem (setitem ?c1 (snd p) (fst p) ?v) a b =
      (if a = snd p \<and> b = fst p then ?v else getitem ?c1 a b)"
    using assms by (intro getitem_setitem wf1) (simp_all add: shape_setitem)
  have e3: "getitem ?c1 a b = (if a = fst p \<and> b = snd p then ?v else getitem c a b)"
    using assms by (intro getitem_setitem) simp_all
  have "getitem (tree_cov_step t p c) a b =
      (if a = snd p \<and> b = fst p then ?v else getitem ?c1 a b)"
    by (simp only: step e1)
  also have "\<dots> = (if a = snd p \<and> b = fst p then ?v
                     else if a = fst p \<and> b = snd p then ?v else getitem c a b)"
    by (simp only: e3)
  also have "\<dots> = (if (a = fst p \<and> b = snd p) \<or> (a = snd p \<and> b = fst p) then ?v
                     else getitem c a b)"
    by presburger
  finally show ?thesis .
qed

lemma tree_cov_step_invariant:
  assumes "wf_ndarray c" and "symmetric c" and "fst p < shape0 c" and "snd p < shape0 c"
  shows "wf_ndarray (tree_cov_step t p c) \<and> symmetric (tree_cov_step t p c) \<and>
         shape0 (tree_cov_step t p c) = shape0 c"
proof -
  from assms have sq: "shape1 c = shape0 c" by (simp add: symmetric_def)
  note g = tree_cov_step_getitem [OF assms(1,3,4) sq, of t]
  have "getitem (tree_cov_step t p c) i j = getitem (tree_cov_step t p c) j i"
    if "i < shape0 c" "j < shape0 c" for i j
  proof -
    from that assms(2) have "getitem c i j = getitem c j i"
      by (simp add: symmetric_def)
    with g [of i j] g [of j i] show ?thesis
      by presburger
  qed
  then have "symmetric (tree_cov_step t p c)"
    by (simp add: symmetric_def tree_cov_step_shape sq)
  with assms(1) show ?thesis
    by (simp add: wf_tree_cov_step tree_cov_step_shape)
qed

lemma combinations_in_range:
  "p \<in> set (combinations_with_replacement n) \<Longrightarrow> fst p < n \<and> snd p < n"
  by (auto simp: combinations_with_replacement_def)

lemma fold_tree_cov_step_invariant:
  assumes "wf_ndarray c" and "symmetric c" and "\<forall>p \<in> set ps. fst p < shape0 c \<and> snd p < shape0 c"
  shows "wf_ndarray (fold (tree_cov_step t) ps c) \<and> symmetric (fold (tree_cov_step t) ps c) \<and>
         shape0 (fold (tree_cov_step t) ps c) = shape0 c"
  using assms
proof (induction ps arbitrary: c)
  case Nil
  then show ?case by simp
next
  case (Cons p ps)
  from Cons.prems have "wf_ndarray (tree_cov_step t p c) \<and> symmetric (tree_cov_step t p c) \<and>
         shape0 (tree_cov_step t p c) = shape0 c"
    by (intro tree_cov_step_invariant) simp_all
  with Cons.prems Cons.IH [of "tree_cov_step t p c"] show ?case by simp
qed

lemma naive_tree_covariance_symmetric:
  assumes "naive_tree_covariance t = Inr M"
  shows "wf_ndarray M \<and> symmetric M \<and> shape0 M = length (tree_samples t)"
proof -
  let ?n = "length (tree_samples t)"
  from assms have M: "M = fold (tree_cov_step t) (combinations_with_replacement ?n) (zeros ?n ?n)"
    by (auto simp: naive_tree_covariance_def Let_def split: sum.splits)
  have "shape0 (zeros ?n ?n) = ?n" by (simp add: zeros_def)
  with fold_tree_cov_step_invariant [of "zeros ?n ?n" "combinations_with_replacement ?n" t]
  show ?thesis
    by (simp add: M wf_zeros symmetric_zeros combinations_in_range)
qed

subsection \<open>Arithmetic on arrays\<close>

lemma nd_binop_entries:
  assumes "nd_binop f a b = Inr c"
  shows "wf_ndarray c \<and>
         (\<forall>i < shape0 c. \<forall>j < shape1 c.
            getitem c i j = f (broadcast_get a i j) (broadcast_get b i j))"
  using assms
  by (auto simp: nd_binop_def wf_ndarray_def list_all_iff getitem_def split: option.splits)

lemma nd_binop_shape:
  assumes "nd_binop f a b = Inr c"
  shows "broadcast_dim (shape0 a) (shape0 b) = Some (shape0 c) \<and>
         broadcast_dim (shape1 a) (shape1 b) = Some (shape1 c)"
  using assms by (auto simp: nd_binop_def split: option.splits)

lemma nd_binop_same_shape:
  assumes "shape0 b = shape0 a" and "shape1 b = shape1 a"
  shows "\<exists>c. nd_binop f a b = Inr c \<and> wf_ndarray c \<and>
           shape0 c = shape0 a \<and> shape1 c = shape1 a \<and>
           (\<forall>i < shape0 a. \<forall>j < shape1 a. getitem c i j = f (getitem a i j) (getitem b i j))"
proof -
  from assms obtain c where c: "nd_binop f a b = Inr c" "shape0 c = shape0 a" "shape1 c = shape1 a"
    by (simp add: nd_binop_def broadcast_dim_def)
  have "broadcast_get a i j = getitem a i j \<and> broadcast_get b i j = getitem b i j"
    if "i < shape0 a" "j < shape1 a" for i j
    using that assms by (auto simp: broadcast_get_def)
  with nd_binop_entries [OF c(1)] c show ?thesis by simp
qed

lemma broadcast_get_symmetric:
  assumes "symmetric a" and "shape0 a = 1 \<or> (i < shape0 a \<and> j < shape0 a)"
  shows "broadcast_get a i j = broadcast_get a j i"
  using assms by (auto simp: symmetric_def broadcast_get_def)

lemma nd_iadd_symmetric:
  assumes "nd_iadd a b = Inr c" and "symmetric a" and "symmetric b"
  shows "wf_ndarray c \<and> symmetric c \<and> shape0 c = shape0 a"
proof -
  from assms(1) have c: "nd_binop (+) a b = Inr c" "shape0 c = shape0 a" "shape1 c = shape1 a"
    by (auto simp: nd_iadd_def nd_add_def split: sum.splits if_splits)
  from assms(2,3) have sq: "shape1 a = shape0 a" "shape1 b = shape0 b"
    by (simp_all add: symmetric_def)
  from nd_binop_shape [OF c(1)] c(2) have b: "shape0 b = 1 \<or> shape0 b = shape0 a"
    by (auto simp: broadcast_dim_def split: if_splits)
  have "getitem c i j = getitem c j i" if "i < shape0 a" "j < shape0 a" for i j
  proof -
    from that have "broadcast_get a i j = broadcast_get a j i"
      by (intro broadcast_get_symmetric assms) simp
    moreover from that b have "broadcast_get b i j = broadcast_get b j i"
      by (intro broadcast_get_symmetric assms) auto
    ultimately show ?thesis
      using nd_binop_entries [OF c(1)] that c(2,3) sq by simp
  qed
  with nd_binop_entries [OF c(1)] c sq show ?thesis
    by (simp add: symmetric_def)
qed

lemma nd_scale_symmetric:
  assumes "wf_ndarray a" and "symmetric a"
  shows "symmetric (nd_scale a x)"
proof -
  have "getitem (nd_scale a x) i j = getitem a i j * x" if "i < shape0 a" "j < shape1 a" for i j
    using that assms(1) by (simp add: nd_scale_def getitem_def wf_ndarray_def list_all_length)
  with assms(2) show ?thesis
    by (simp add: symmetric_def) (simp add: nd_scale_def)
qed

lemma nd_divide_symmetric:
  assumes "wf_ndarray a" and "symmetric a"
  shows "symmetric (nd_divide a x)"
proof -
  have "getitem (nd_divide a x) i j = getitem a i j / x" if "i < shape0 a" "j < shape1 a" for i j
    using that assms(1) by (simp add: nd_divide_def getitem_def wf_ndarray_def list_all_length)
  with assms(2) show ?thesis
    by (simp add: symmetric_def) (simp add: nd_divide_def)
qed

lemma ts_cov_loop_symmetric:
  assumes "ts_cov_loop ts cov = Inr M" and "wf_ndarray cov" and "symmetric cov"
  shows "wf_ndarray M \<and> symmetric M"
  using assms
proof (induction ts arbitrary: cov)
  case Nil
  then show ?case by simp
next
  case (Cons t ts)
  from Cons.prems(1) obtain c cov' where
    c: "naive_tree_covariance t = Inr c" and
    cov': "nd_iadd cov (nd_scale c (tree_span t)) = Inr cov'" and
    M: "ts_cov_loop ts cov' = Inr M"
    by (auto split: sum.splits)
  from naive_tree_covariance_symmetric [OF c] have "symmetric (nd_scale c (tree_span t))"
    by (simp add: nd_scale_symmetric)
  with nd_iadd_symmetric [OF cov' Cons.prems(3)] have "wf_ndarray cov'" "symmetric cov'"
    by simp_all
  with Cons.IH [OF M] show ?case .
qed

lemma naive_ts_covariance_symmetric:
  assumes "naive_ts_covariance ts = Inr M"
  shows "symmetric M"
proof -
  let ?n = "length (ts_samples ts)"
  from assms obtain cov where
    cov: "ts_cov_loop (ts_trees ts) (zeros ?n ?n) = Inr cov" and
    M: "M = nd_divide cov (ts_sequence_length ts)"
    by (auto simp: naive_ts_covariance_def Let_def split: sum.splits)
  from ts_cov_loop_symmetric [OF cov wf_zeros symmetric_zeros] show ?thesis
    by (simp add: M nd_divide_symmetric)
qed

lemma naive_genotype_covariance_symmetric:
  assumes "wf_ndarray G" and "naive_genotype_covariance G = Inr M"
  shows "symmetric M"
proof -
  from naive_genotype_covariance_entries [OF assms(1)] assms(2)
  have M: "shape0 M = shape1 G" "shape1 M = shape1 G"
    "\<forall>s < shape1 G. \<forall>t < shape1 G.
       getitem M s t = (\<Sum>k < shape0 G. centered G s k * centered G t k)"
    by auto
  then show ?thesis
    by (simp add: symmetric_def mult.commute)
qed

subsection \<open>Filling and reflecting the upper triangle\<close>

lemma fold_setitem_wf:
  "wf_ndarray a \<Longrightarrow>
     wf_ndarray (fold (\<lambda>pe c. setitem c (fst (fst pe)) (snd (fst pe)) (snd pe)) ps a) \<and>
     shape0 (fold (\<lambda>pe c. setitem c (fst (fst pe)) (snd (fst pe)) (snd pe)) ps a) = shape0 a \<and>
     shape1 (fold (\<lambda>pe c. setitem c (fst (fst pe)) (snd (fst pe)) (snd pe)) ps a) = shape1 a"
  by (induction ps arbitrary: a) (simp_all add: wf_setitem shape_setitem)

lemma fold_setitem_other:
  "(p, q) \<notin> fst ` set ps \<Longrightarrow>
     getitem (fold (\<lambda>pe c. setitem c (fst (fst pe)) (snd (fst pe)) (snd pe)) ps a) p q
       = getitem a p q"
proof (induction ps arbitrary: a)
  case Nil
  then show ?case by simp
next
  case (Cons pe ps)
  from Cons.prems have "(p, q) \<noteq> (fst (fst pe), snd (fst pe))" "(p, q) \<notin> fst ` set ps"
    by auto
  with Cons.IH show ?case
    by (simp add: getitem_setitem_other)
qed

lemma fold_setitem_nth:
  assumes "distinct (map fst ps)" and "wf_ndarray a"
    and "\<forall>pe \<in> set ps. fst (fst pe) < shape0 a \<and> snd (fst pe) < shape1 a"
    and "k < length ps"
  shows "getitem (fold (\<lambda>pe c. setitem c (fst (fst pe)) (snd (fst pe)) (snd pe)) ps a)
           (fst (fst (ps ! k))) (snd (fst (ps ! k))) = snd (ps ! k)"
  using assms
proof (induction ps arbitrary: a k)
  case Nil
  then show ?case by simp
next
  case (Cons pe ps)
  let ?a = "setitem a (fst (fst pe)) (snd (fst pe)) (snd pe)"
  show ?case
  proof (cases k)
    case 0
    from Cons.prems(1) have "(fst (fst pe), snd (fst pe)) \<notin> fst ` set ps" by simp
    from fold_setitem_other [OF this] Cons.prems(2,3) 0 show ?thesis
      by (simp add: getitem_setitem)
  next
    case (Suc k')
    with Cons.prems have "distinct (map fst ps)" "wf_ndarray ?a"
      "\<forall>pe \<in> set ps. fst (fst pe) < shape0 ?a \<and> snd (fst pe) < shape1 ?a" "k' < length ps"
      by (simp_all add: wf_setitem shape_setitem)
    from Cons.IH [OF this] Suc show ?thesis by simp
  qed
qed

lemma distinct_concat_pairs:
  "distinct xs \<Longrightarrow> (\<And>i. distinct (g i)) \<Longrightarrow>
     distinct (concat (map (\<lambda>i. map (Pair i) (g i)) xs))"
  by (induction xs) (auto simp: distinct_map inj_on_def)

lemma distinct_triu_indices: "distinct (triu_indices n)"
  unfolding triu_indices_def by (rule distinct_concat_pairs) simp_all

lemma set_triu_indices: "set (triu_indices n) = {(i, j). i \<le> j \<and> j < n}"
proof -
  have "(i, j) \<in> set (triu_indices n) \<longleftrightarrow> i \<le> j \<and> j < n" for i j
    by (auto simp: triu_indices_def image_iff)
  then show ?thesis by auto
qed

lemma setitem_indices_triu:
  assumes "length v = length (triu_indices n)"
  shows "\<exists>cov. setitem_indices (zeros n n) (triu_indices n) v = Inr cov \<and>
           wf_ndarray cov \<and> shape0 cov = n \<and> shape1 cov = n \<and>
           (\<forall>k < length v.
              getitem cov (fst (triu_indices n ! k)) (snd (triu_indices n ! k)) = v ! k) \<and>
           (\<forall>i < n. \<forall>j < i. getitem cov i j = 0)"
proof -
  let ?idx = "triu_indices n"
  let ?cov = "fold (\<lambda>pe c. setitem c (fst (fst pe)) (snd (fst pe)) (snd pe)) (zip ?idx v) (zeros n n)"
  have sh: "shape0 (zeros n n) = n" "shape1 (zeros n n) = n"
    by (simp_all add: zeros_def)
  have range: "\<forall>p \<in> set ?idx. fst p < n \<and> snd p < n"
    by (auto simp: set_triu_indices)
  then have "\<not> list_ex (\<lambda>p. \<not> (fst p < shape0 (zeros n n) \<and> snd p < shape1 (zeros n n))) ?idx"
    by (simp add: list_ex_iff sh)
  with assms have "setitem_indices (zeros n n) ?idx v = Inr ?cov"
    by (simp add: setitem_indices_def)
  moreover from fold_setitem_wf [OF wf_zeros, of "zip ?idx v" n n]
  have "wf_ndarray ?cov" "shape0 ?cov = n" "shape1 ?cov = n"
    by (simp_all add: sh)
  moreover have "getitem ?cov (fst (?idx ! k)) (snd (?idx ! k)) = v ! k" if "k < length v" for k
  proof -
    have "distinct (map fst (zip ?idx v))"
      using assms by (simp add: distinct_triu_indices)
    moreover have "\<forall>pe \<in> set (zip ?idx v).
        fst (fst pe) < shape0 (zeros n n) \<and> snd (fst pe) < shape1 (zeros n n)"
    proof
      fix pe assume "pe \<in> set (zip ?idx v)"
      then have "fst pe \<in> set ?idx"
        using set_zip_leftD [of "fst pe" "snd pe" ?idx v] by simp
      with range show "fst (fst pe) < shape0 (zeros n n) \<and> snd (fst pe) < shape1 (zeros n n)"
        by (simp add: sh)
    qed
    moreover have "k < length (zip ?idx v)"
      using that assms by simp
    ultimately have "getitem ?cov (fst (fst (zip ?idx v ! k))) (snd (fst (zip ?idx v ! k)))
        = snd (zip ?idx v ! k)"
      by (intro fold_setitem_nth wf_zeros)
    with that assms show ?thesis by simp
  qed
  moreover have "getitem ?cov i j = 0" if "i < n" "j < i" for i j
  proof -
    from that have "(i, j) \<notin> fst ` set (zip ?idx v)"
      by (auto simp: set_triu_indices dest!: set_zip_leftD)
    from fold_setitem_other [OF this] that show ?thesis
      by (simp add: getitem_zeros)
  qed
  ultimately show ?thesis by blast
qed

lemma getitem_transpose_nd:
  "wf_ndarray a \<Longrightarrow> i < shape1 a \<Longrightarrow> j < shape0 a \<Longrightarrow> getitem (transpose_nd a) i j = getitem a j i"
  by (simp add: transpose_nd_def getitem_def wf_ndarray_def)

lemma getitem_diag:
  "i < length v \<Longrightarrow> j < length v \<Longrightarrow> getitem (diag v) i j = (if i = j then v ! i else 0)"
  by (simp add: diag_def getitem_def)

lemma reflect_upper_entries:
  assumes "wf_ndarray cov" and "shape0 cov = n" and "shape1 cov = n"
  shows "\<exists>M. reflect_upper cov = Inr M \<and> wf_ndarray M \<and> shape0 M = n \<and> shape1 M = n \<and>
           (\<forall>i < n. \<forall>j < n.
              getitem M i j
                = getitem cov i j + getitem cov j i - (if i = j then getitem cov i i else 0))"
proof -
  have "shape0 (transpose_nd cov) = shape0 cov" "shape1 (transpose_nd cov) = shape1 cov"
    using assms by (simp_all add: transpose_nd_def)
  from nd_binop_same_shape [OF this, of "(+)"] obtain s where
    s: "nd_add cov (transpose_nd cov) = Inr s" "shape0 s = n" "shape1 s = n"
      "\<forall>i < n. \<forall>j < n. getitem s i j = getitem cov i j + getitem (transpose_nd cov) i j"
    using assms by (auto simp: nd_add_def)
  have d: "length (diagonal cov) = n" "\<forall>i < n. diagonal cov ! i = getitem cov i i"
    using assms by (simp_all add: diagonal_def)
  then have "shape0 (diag (diagonal cov)) = shape0 s" "shape1 (diag (diagonal cov)) = shape1 s"
    using s by (simp_all add: diag_def)
  from nd_binop_same_shape [OF this, of "(-)"] obtain M where
    M: "nd_sub s (diag (diagonal cov)) = Inr M" "wf_ndarray M" "shape0 M = n" "shape1 M = n"
      "\<forall>i < n. \<forall>j < n. getitem M i j = getitem s i j - getitem (diag (diagonal cov)) i j"
    using s by (auto simp: nd_sub_def)
  have "getitem M i j = getitem cov i j + getitem cov j i - (if i = j then getitem cov i i else 0)"
    if "i < n" "j < n" for i j
    using that M(5) s(4) d assms by (simp add: getitem_transpose_nd getitem_diag)
  with s(1) M show ?thesis
    by (simp add: reflect_upper_def)
qed

lemma upper_to_full_symmetric:
  assumes "length v = length (triu_indices n)"
  shows "\<exists>cov M. setitem_indices (zeros n n) (triu_indices n) v = Inr cov \<and>
           upper_to_full n v = Inr M \<and> symmetric M \<and> shape0 M = n \<and>
           (\<forall>i j. i \<le> j \<and> j < n \<longrightarrow> getitem M i j = getitem cov i j) \<and>
           (\<forall>k < length v.
              getitem M (fst (triu_indices n ! k)) (snd (triu_indices n ! k)) = v ! k)"
proof -
  from setitem_indices_triu [OF assms] obtain cov where
    cov: "setitem_indices (zeros n n) (triu_indices n) v = Inr cov"
      "wf_ndarray cov" "shape0 cov = n" "shape1 cov = n"
      "\<forall>k < length v. getitem cov (fst (triu_indices n ! k)) (snd (triu_indices n ! k)) = v ! k"
      "\<forall>i < n. \<forall>j < i. getitem cov i j = 0"
    by blast
  from reflect_upper_entries [OF cov(2-4)] obtain M where
    M: "reflect_upper cov = Inr M" "shape0 M = n" "shape1 M = n"
      "\<forall>i < n. \<forall>j < n.
         getitem M i j = getitem cov i j + getitem cov j i - (if i = j then getitem cov i i else 0)"
    by blast
  have upper: "getitem M i j = getitem cov i j" "getitem M j i = getitem cov i j"
    if "i \<le> j" "j < n" for i j
    using that M(4) cov(6) by (cases "i = j"; simp)+
  have "getitem M i j = getitem M j i" if "i < n" "j < n" for i j
  proof (cases "i \<le> j")
    case True
    with that upper [of i j] show ?thesis by simp
  next
    case False
    with that upper [of j i] show ?thesis by simp
  qed
  then have "symmetric M"
    using M(2,3) by (simp add: symmetric_def)
  moreover have "getitem M (fst (triu_indices n ! k)) (snd (triu_indices n ! k)) = v ! k"
    if "k < length v" for k
  proof -
    from that assms have "triu_indices n ! k \<in> set (triu_indices n)" by simp
    then have "fst (triu_indices n ! k) \<le> snd (triu_indices n ! k)" "snd (triu_indices n ! k) < n"
      by (auto simp: set_triu_indices)
    from upper(1) [OF this] cov(5) that show ?thesis by simp
  qed
  ultimately show ?thesis
    using cov(1) M(1,2) upper(1) by (simp add: upper_to_full_def)
qed

subsection \<open>Entries of the tree covariance\<close>

lemma combinations_eq_triu: "combinations_with_replacement n = triu_indices n"
  by (simp add: combinations_with_replacement_def triu_indices_def)

lemma fold_tree_cov_step_untouched:
  assumes "wf_ndarray c" and "symmetric c"
    and "\<forall>p \<in> set ps. fst p < shape0 c \<and> snd p < shape0 c"
    and "\<forall>p \<in> set ps. (a, b) \<noteq> (fst p, snd p) \<and> (a, b) \<noteq> (snd p, fst p)"
  shows "getitem (fold (tree_cov_step t) ps c) a b = getitem c a b"
  using assms
proof (induction ps arbitrary: c)
  case Nil
  then show ?case by simp
next
  case (Cons p ps)
  let ?c = "tree_cov_step t p c"
  from Cons.prems have p: "fst p < shape0 c" "snd p < shape0 c" "shape1 c = shape0 c"
    by (auto simp: symmetric_def)
  from tree_cov_step_invariant [OF Cons.prems(1,2) p(1,2)]
  have inv: "wf_ndarray ?c" "symmetric ?c" "shape0 ?c = shape0 c"
    by simp_all
  from Cons.prems inv have "getitem (fold (tree_cov_step t) ps ?c) a b = getitem ?c a b"
    by (intro Cons.IH) simp_all
  also have "\<dots> = getitem c a b"
  proof -
    from Cons.prems(4) have "\<not> ((a = fst p \<and> b = snd p) \<or> (a = snd p \<and> b = fst p))"
      by auto
    with tree_cov_step_getitem [OF Cons.prems(1) p, of t a b] show ?thesis
      by (simp only: if_False)
  qed
  finally show ?case by simp
qed

lemma fold_tree_cov_step_getitem:
  assumes "wf_ndarray c" and "symmetric c" and "distinct ps"
    and "\<forall>p \<in> set ps. fst p \<le> snd p \<and> snd p < shape0 c"
    and "(i, j) \<in> set ps"
  shows "getitem (fold (tree_cov_step t) ps c) i j =
           tree_time t (tree_root t)
           - tree_time t (tree_mrca t (tree_samples t ! i) (tree_samples t ! j))"
  using assms
proof (induction ps arbitrary: c)
  case Nil
  then show ?case by simp
next
  case (Cons p ps)
  let ?c = "tree_cov_step t p c"
  from Cons.prems have p: "fst p < shape0 c" "snd p < shape0 c" "shape1 c = shape0 c"
    by (auto simp: symmetric_def)
  from tree_cov_step_invariant [OF Cons.prems(1,2) p(1,2)]
  have inv: "wf_ndarray ?c" "symmetric ?c" "shape0 ?c = shape0 c"
    by simp_all
  show ?case
  proof (cases "(i, j) \<in> set ps")
    case True
    with Cons.prems inv have "getitem (fold (tree_cov_step t) ps ?c) i j =
           tree_time t (tree_root t)
           - tree_time t (tree_mrca t (tree_samples t ! i) (tree_samples t ! j))"
      by (intro Cons.IH) simp_all
    then show ?thesis by simp
  next
    case False
    with Cons.prems have ij: "p = (i, j)" "i \<le> j" by auto
    have "\<forall>q \<in> set ps. (i, j) \<noteq> (fst q, snd q) \<and> (i, j) \<noteq> (snd q, fst q)"
    proof
      fix q assume q: "q \<in> set ps"
      with False have "q \<noteq> (i, j)" by auto
      moreover from q Cons.prems(4) have "fst q \<le> snd q" by simp
      ultimately show "(i, j) \<noteq> (fst q, snd q) \<and> (i, j) \<noteq> (snd q, fst q)"
        using ij(2) by (cases q) auto
    qed
    moreover from Cons.prems(4) inv(3) have "\<forall>q \<in> set ps. fst q < shape0 ?c \<and> snd q < shape0 ?c"
      by auto
    ultimately have "getitem (fold (tree_cov_step t) ps ?c) i j = getitem ?c i j"
      using inv by (intro fold_tree_cov_step_untouched) simp_all
    also have "\<dots> = tree_time t (tree_root t)
           - tree_time t (tree_mrca t (tree_samples t ! i) (tree_samples t ! j))"
      using tree_cov_step_getitem [OF Cons.prems(1) p, of t i j] ij(1) by simp
    finally show ?thesis by simp
  qed
qed

lemma naive_tree_covariance_entries:
  assumes "naive_tree_covariance t = Inr M" and "i \<le> j" and "j < length (tree_samples t)"
  shows "getitem M i j =
           tree_time t (tree_root t)
           - tree_time t (tree_mrca t (tree_samples t ! i) (tree_samples t ! j))"
    and "getitem M j i = getitem M i j"
proof -
  let ?n = "length (tree_samples t)"
  from assms have M: "M = fold (tree_cov_step t) (triu_indices ?n) (zeros ?n ?n)"
    by (auto simp: naive_tree_covariance_def Let_def combinations_eq_triu split: sum.splits)
  have "shape0 (zeros ?n ?n) = ?n" by (simp add: zeros_def)
  moreover from assms have "(i, j) \<in> set (triu_indices ?n)"
    by (simp add: set_triu_indices)
  ultimately show "getitem M i j =
           tree_time t (tree_root t)
           - tree_time t (tree_mrca t (tree_samples t ! i) (tree_samples t ! j))"
    unfolding M
    by (intro fold_tree_cov_step_getitem wf_zeros symmetric_zeros distinct_triu_indices)
       (auto simp: set_triu_indices)
  from naive_tree_covariance_symmetric [OF assms(1)] assms(2,3)
  show "getitem M j i = getitem M i j"
    by (simp add: symmetric_def)
qed

lemma genotype_relatedness_f_symmetric:
  assumes "genotype_relatedness_f n x = Inr r" and "i < n" and "j < n"
  shows "r ! (i * n + j) = r ! (j * n + i)"
proof -
  from assms(1) have "r = concat (map (\<lambda>i. map (\<lambda>j.
      (x ! i - sum_list x / real n) * (x ! j - sum_list x / real n)) [0..<n]) [0..<n])"
    by (simp add: genotype_relatedness_f_def split: if_splits)
  with assms(2,3) show ?thesis
    by (simp add: nth_concat_map_upt mult.commute)
qed

lemma genetic_relatedness_f_symmetric:
  assumes "genetic_relatedness_f n num_samples x = Inr r" and "i < n" and "j < n"
  shows "r ! (i * n + j) = r ! (j * n + i)"
proof -
  from assms(1) have "n \<le> length x"
    by (auto simp: genetic_relatedness_f_def split: if_splits)
  with assms(1) have "Inr r = (Inr (concat (map (\<lambda>i. map (\<lambda>j.
      x ! i * x ! j * of_bool (sum_list x \<noteq> real num_samples)) [0..<n]) [0..<n]))
      :: error + real list)"
    unfolding genetic_relatedness_f_def by (simp only: if_True)
  then have "r = concat (map (\<lambda>i. map (\<lambda>j.
      x ! i * x ! j * of_bool (sum_list x \<noteq> real num_samples)) [0..<n]) [0..<n])"
    by (simp only: sum.inject)
  with assms(2,3) show ?thesis
    by (simp only: nth_concat_map_upt) (simp add: mult.commute)
qed

text \<open>
  C7. The matrices that the covariance reducers return are symmetric.
  \<^verbatim>\<open>naive_tree_covariance\<close> stores, for \<open>i \<le> j\<close>, the time of the root minus the time
  of the most recent common ancestor of the samples \<open>i\<close> and \<open>j\<close> at both \<open>(i, j)\<close> and
  \<open>(j, i)\<close>; \<^verbatim>\<open>naive_ts_covariance\<close> and \<^verbatim>\<open>naive_genotype_covariance\<close> return symmetric
  matrices; the summary functions of \<^verbatim>\<open>genotype_relatedness\<close> and
  \<^verbatim>\<open>genetic_relatedness\<close> give the pairs \<open>(i, j)\<close> and \<open>(j, i)\<close> the same value. A vector
  \<open>v\<close> of values for the upper triangle, written to \<^verbatim>\<open>np.triu_indices\<close> of a zero
  matrix and reflected by \<^verbatim>\<open>M + M.T - np.diag(M.diagonal())\<close>, becomes a symmetric
  matrix whose upper triangle, diagonal included, still holds the values of \<open>v\<close>.
\<close>

theorem covariance_matrices_symmetric:
  "(\<forall>M. naive_tree_covariance t = Inr M \<longrightarrow>
      symmetric M \<and>
      (\<forall>i j. i \<le> j \<and> j < length (tree_samples t) \<longrightarrow>
         getitem M i j =
           tree_time t (tree_root t)
           - tree_time t (tree_mrca t (tree_samples t ! i) (tree_samples t ! j)) \<and>
         getitem M j i = getitem M i j)) \<and>
   (\<forall>M. naive_ts_covariance ts = Inr M \<longrightarrow> symmetric M) \<and>
   (wf_ndarray G \<longrightarrow> (\<forall>M. naive_genotype_covariance G = Inr M \<longrightarrow> symmetric M)) \<and>
   (\<forall>r. genotype_relatedness_f n x = Inr r \<longrightarrow>
      (\<forall>i < n. \<forall>j < n. r ! (i * n + j) = r ! (j * n + i))) \<and>
   (\<forall>r. genetic_relatedness_f n num_samples x = Inr r \<longrightarrow>
      (\<forall>i < n. \<forall>j < n. r ! (i * n + j) = r ! (j * n + i))) \<and>
   (length v = length (triu_indices m) \<longrightarrow>
      (\<exists>cov M. setitem_indices (zeros m m) (triu_indices m) v = Inr cov \<and>
         upper_to_full m v = Inr M \<and> symmetric M \<and> shape0 M = m \<and>
         (\<forall>i j. i \<le> j \<and> j < m \<longrightarrow> getitem M i j = getitem cov i j) \<and>
         (\<forall>k < length v.
            getitem M (fst (triu_indices m ! k)) (snd (triu_indices m ! k)) = v ! k)))"
proof (intro conjI allI impI)
  fix M i j
  assume M: "naive_tree_covariance t = Inr M"
  from naive_tree_covariance_symmetric [OF M] show "symmetric M" by simp
  assume "i \<le> j \<and> j < length (tree_samples t)"
  then have ij: "i \<le> j" "j < length (tree_samples t)" by simp_all
  from naive_tree_covariance_entries [OF M ij]
  show "getitem M i j =
          tree_time t (tree_root t)
          - tree_time t (tree_mrca t (tree_samples t ! i) (tree_samples t ! j))"
    and "getitem M j i = getitem M i j" .
next
  fix M assume "naive_ts_covariance ts = Inr M"
  then show "symmetric M" by (rule naive_ts_covariance_symmetric)
next
  fix M assume "wf_ndarray G" "naive_genotype_covariance G = Inr M"
  then show "symmetric M" by (rule naive_genotype_covariance_symmetric)
next
  fix r i j assume "genotype_relatedness_f n x = Inr r" "i < n" "j < n"
  then show "r ! (i * n + j) = r ! (j * n + i)" by (rule genotype_relatedness_f_symmetric)
next
  fix r i j assume "genetic_relatedness_f n num_samples x = Inr r" "i < n" "j < n"
  then show "r ! (i * n + j) = r ! (j * n + i)" by (rule genetic_relatedness_f_symmetric)
next
  assume "length v = length (triu_indices m)"
  then show "\<exists>cov M. setitem_indices (zeros m m) (triu_indices m) v = Inr cov \<and>
         upper_to_full m v = Inr M \<and> symmetric M \<and> shape0 M = m \<and>
         (\<forall>i j. i \<le> j \<and> j < m \<longrightarrow> getitem M i j = getitem cov i j) \<and>
         (\<forall>k < length v.
            getitem M (fst (triu_indices m ! k)) (snd (triu_indices m ! k)) = v ! k)"
    by (rule upper_to_full_symmetric)
qed

text \<open>The example inputs, evaluated.\<close>

lemma upt_2:
  "[0..<2] = [0, 1]" "[1..<2] = [1]" "[Suc 0..<2] = [Suc 0]" "[2..<2] = []"
  by (simp_all add: upt_rec)

lemma naive_tree_covariance_cherry_tree:
  "naive_tree_covariance cherry_tree = Inr \<lparr>shape0 = 2, shape1 = 2, rows = [[1, 0], [0, 1]]\<rparr>"
    by (simp add: naive_tree_covariance_def check_cov_tree_inputs_def cherry_tree_def
        combinations_with_replacement_def zeros_def tree_cov_step_def setitem_def getitem_def
        Let_def upt_2 numeral_2_eq_2)
lemma zeros_2_2:
  "zeros 2 2 = \<lparr>shape0 = 2, shape1 = 2, rows = [[0, 0], [0, 0]]\<rparr>"
  by (simp add: zeros_def numeral_2_eq_2)

lemma nd_iadd_cherry:
  "nd_iadd (zeros 2 2) (nd_scale \<lparr>shape0 = 2, shape1 = 2, rows = [[1, 0], [0, 1]]\<rparr> 1)
   = Inr \<lparr>shape0 = 2, shape1 = 2, rows = [[1, 0], [0, 1]]\<rparr>"
  by (simp add: zeros_2_2 nd_iadd_def nd_add_def nd_binop_def
        broadcast_dim_def broadcast_get_def nd_scale_def getitem_def upt_2)

lemma naive_ts_covariance_cherry_ts:
  "naive_ts_covariance cherry_ts = Inr \<lparr>shape0 = 2, shape1 = 2, rows = [[1, 0], [0, 1]]\<rparr>"
proof -
  have ts: "ts_trees cherry_ts = [cherry_tree]" "length (ts_samples cherry_ts) = 2"
    "ts_sequence_length cherry_ts = 1"
    by (simp_all add: cherry_ts_def)
  have "tree_span cherry_tree = 1" by (simp add: cherry_tree_def)
  then have "ts_cov_loop (ts_trees cherry_ts)
      (zeros (length (ts_samples cherry_ts)) (length (ts_samples cherry_ts)))
      = Inr \<lparr>shape0 = 2, shape1 = 2, rows = [[1, 0], [0, 1]]\<rparr>"
    by (simp add: ts naive_tree_covariance_cherry_tree nd_iadd_cherry)
  then show ?thesis
    by (simp add: naive_ts_covariance_def ts(3) nd_divide_def)
qed

lemma triu_indices_2:
  "triu_indices 2 = [(0, 0), (0, 1), (1, 1)]"
    by (simp add: triu_indices_def upt_2)

lemma setitem_indices_example:
  "setitem_indices (zeros 2 2) (triu_indices 2) [1, 2, 3] = Inr \<lparr>shape0 = 2, shape1 = 2, rows = [[1, 2], [0, 3]]\<rparr>"
  by (simp add: triu_indices_2 zeros_2_2 setitem_indices_def setitem_def)

lemma reflect_upper_example:
  "reflect_upper \<lparr>shape0 = 2, shape1 = 2, rows = [[1, 2], [0, 3]]\<rparr> = Inr \<lparr>shape0 = 2, shape1 = 2, rows = [[1, 2], [2, 3]]\<rparr>"
  by (simp add: reflect_upper_def
      nd_add_def nd_sub_def nd_binop_def broadcast_dim_def broadcast_get_def transpose_nd_def
      diag_def diagonal_def getitem_def upt_2)

lemma upper_to_full_example:
  "upper_to_full 2 [1, 2, 3] = Inr \<lparr>shape0 = 2, shape1 = 2, rows = [[1, 2], [2, 3]]\<rparr>"
    by (simp add: upper_to_full_def setitem_indices_example reflect_upper_example)
lemma genotype_relatedness_f_example:
  "genotype_relatedness_f 2 [1, 0] = Inr [1/4, -1/4, -1/4, 1/4]"
   by (simp add: genotype_relatedness_f_def upt_2)
lemma naive_genotype_covariance_two_site_matrix:
  "naive_genotype_covariance two_site_matrix = Inr \<lparr>shape0 = 3, shape1 = 3, rows =
      [[8/9, -4/9, -4/9], [-4/9, 2/9, 2/9], [-4/9, 2/9, 2/9]]\<rparr>"
  by (simp add: two_site_matrix_def naive_genotype_covariance_def sub_broadcast_def transpose_nd_def
      mean_axis1_def matmul_def getitem_def upt_rec)

theorem covariance_matrices_symmetric_witness:
  "naive_tree_covariance cherry_tree = Inr \<lparr>shape0 = 2, shape1 = 2, rows = [[1, 0], [0, 1]]\<rparr> \<and>
   naive_ts_covariance cherry_ts = Inr \<lparr>shape0 = 2, shape1 = 2, rows = [[1, 0], [0, 1]]\<rparr> \<and>
   symmetric \<lparr>shape0 = 2, shape1 = 2, rows = [[1, 0], [0, 1]]\<rparr> \<and>
   wf_ndarray two_site_matrix \<and>
   (\<exists>M. naive_genotype_covariance two_site_matrix = Inr M \<and> symmetric M) \<and>
   genotype_relatedness_f 2 [1, 0] = Inr [1 / 4, - 1 / 4, - 1 / 4, 1 / 4] \<and>
   genetic_relatedness_f 2 2 [1, 0] = Inr [1, 0, 0, 0] \<and>
   length [1, 2, 3 :: real] = length (triu_indices 2) \<and>
   upper_to_full 2 [1, 2, 3] = Inr \<lparr>shape0 = 2, shape1 = 2, rows = [[1, 2], [2, 3]]\<rparr> \<and>
   symmetric \<lparr>shape0 = 2, shape1 = 2, rows = [[1, 2], [2, 3]]\<rparr>"
proof -
  note s = covariance_matrices_symmetric [where t = cherry_tree and ts = cherry_ts
      and G = two_site_matrix and n = 2 and x = "[1, 0]" and num_samples = 2
      and v = "[1, 2, 3]" and m = 2]
  have wf: "wf_ndarray two_site_matrix"
    by (simp add: wf_ndarray_def two_site_matrix_def)
  have len: "length [1, 2, 3 :: real] = length (triu_indices 2)"
    by (simp add: triu_indices_2)
  have gr: "genetic_relatedness_f 2 2 [1, 0] = Inr [1, 0, 0, 0]"
    by (simp add: genetic_relatedness_f_def upt_2)
  from s naive_tree_covariance_cherry_tree have "symmetric \<lparr>shape0 = 2, shape1 = 2, rows = [[1, 0], [0, 1]]\<rparr>"
    by simp
  moreover from s wf naive_genotype_covariance_two_site_matrix have "\<exists>M. naive_genotype_covariance two_site_matrix = Inr M \<and> symmetric M"
    by simp
  moreover from s len upper_to_full_example have "symmetric \<lparr>shape0 = 2, shape1 = 2, rows = [[1, 2], [2, 3]]\<rparr>"
    by auto
  ultimately show ?thesis
    using naive_tree_covariance_cherry_tree naive_ts_covariance_cherry_ts upper_to_full_example genotype_relatedness_f_example gr wf len by simp
qed

section \<open>The sample count path\<close>

subsection \<open>Count vectors of singleton sample sets\<close>







subsection \<open>The statistic on genotypes 0 and 1\<close>








subsection \<open>The scenario of the specification\<close>


















end
